theory Spec2Isabelle
  imports Main
begin

section \<open>Radicale multifilesystem storage: locks and the storage hook\<close>

text \<open>
  A shallow embedding of \<^verbatim>\<open>radicale/storage/multifilesystem/lock.py\<close>.
  The file has two mixins. \<^verbatim>\<open>CollectionLockMixin._acquire_cache_lock\<close> decides
  whether a collection's cache needs a lock file of its own;
  \<^verbatim>\<open>StorageLockMixin.acquire_lock\<close> wraps a storage transaction in the storage
  lock and, after a write, runs the configured hook as a subprocess.

  Both functions act on the outside world (the file system, the lock provider
  \<^verbatim>\<open>pathutils.RwLock\<close>, the logger, \<^verbatim>\<open>subprocess\<close>). The model makes this
  explicit: every call to a collaborator is an event of a trace, and what the
  collaborators answer is read from a record describing the world.
\<close>

subsection \<open>Paths\<close>

text \<open>
  \<^verbatim>\<open>os.path.join\<close> for two components, as \<^verbatim>\<open>posixpath.join\<close> computes it: an
  absolute second component replaces the first, otherwise the two are joined by
  one separator unless the first is empty or already ends with one.
\<close>

definition path_join :: "string \<Rightarrow> string \<Rightarrow> string" where
  "path_join a b =
     (case b of
        c # _ \<Rightarrow>
          if c = CHR ''/'' then b
          else if a = [] \<or> last a = CHR ''/'' then a @ b
          else a @ ''/'' @ b
      | [] \<Rightarrow> if a = [] \<or> last a = CHR ''/'' then a else a @ ''/'')"

subsection \<open>The cache lock\<close>

text \<open>
  What \<^verbatim>\<open>_acquire_cache_lock\<close> returns is a context manager: either an empty
  \<^verbatim>\<open>contextlib.ExitStack()\<close>, whose scope does nothing, or the scope
  \<^verbatim>\<open>pathutils.RwLock(lock_path).acquire(mode)\<close> that holds the lock on
  \<^verbatim>\<open>lock_path\<close> in the given mode.
\<close>

datatype scoped_resource =
    ExitStack
  | RwLock_scope string string

text \<open>
  Modelled from the spec: \<^verbatim>\<open>_makedirs_synced\<close>, the storage layer's directory
  creation primitive, is not part of this file. The spec says that it ensures
  that the directory exists, creating it durably. The file system is the set
  of directories that exist.
\<close>

definition makedirs_synced :: "string \<Rightarrow> string set \<Rightarrow> string set" where
  "makedirs_synced path dirs = insert path dirs"

text \<open>
  The name of the lock file:
  \<^verbatim>\<open>".Radicale.lock" + (".%s" % ns if ns else "")\<close>.
\<close>

definition cache_lock_name :: "string \<Rightarrow> string" where
  "cache_lock_name ns = ''.Radicale.lock'' @ (if ns \<noteq> [] then ''.'' @ ns else [])"

text \<open>
  \<^verbatim>\<open>_acquire_cache_lock(self, ns="")\<close>. The arguments \<open>locked\<close> and
  \<open>filesystem_path\<close> are \<^verbatim>\<open>self._storage._lock.locked\<close> and
  \<^verbatim>\<open>self._filesystem_path\<close>; \<open>dirs\<close> is the file system before the call. The
  result is the returned context manager and the file system after the call.
\<close>

definition acquire_cache_lock ::
  "string \<Rightarrow> string \<Rightarrow> string \<Rightarrow> string set \<Rightarrow> scoped_resource \<times> string set" where
  "acquire_cache_lock locked filesystem_path ns dirs =
     (if locked = ''w'' then (ExitStack, dirs)
      else
        let cache_folder = path_join filesystem_path ''.Radicale.cache'';
            dirs' = makedirs_synced cache_folder dirs;
            lock_path = path_join cache_folder (cache_lock_name ns)
        in (RwLock_scope lock_path ''w'', dirs'))"

text \<open>The lock file that a scope locks, if it locks one.\<close>

fun lock_file_of :: "scoped_resource \<Rightarrow> string option" where
  "lock_file_of ExitStack = None"
| "lock_file_of (RwLock_scope path mode) = Some path"

subsection \<open>Exceptions, streams and events\<close>

text \<open>
  The exceptions that can travel through \<^verbatim>\<open>acquire_lock\<close>. The handler around
  \<^verbatim>\<open>p.communicate()\<close> catches \<^verbatim>\<open>BaseException\<close>, so the interrupts that are not
  an \<^verbatim>\<open>Exception\<close> are listed too. \<open>CalledProcessError returncode cmd\<close> is
  \<^verbatim>\<open>subprocess.CalledProcessError(returncode, cmd)\<close>. \<open>Unmodelled_directive\<close>
  is not a Python exception: it marks a hook template that uses a \<^verbatim>\<open>%\<close>
  directive outside the fragment that \<open>percent_format\<close> below covers.
\<close>

datatype exn =
    KeyboardInterrupt
  | SystemExit
  | Exception string
  | KeyError string
  | ValueError string
  | CalledProcessError int string
  | Unmodelled_directive

datatype stream = DEVNULL | PIPE

datatype preexec = Setpgrp

datatype creationflag = CREATE_NEW_PROCESS_GROUP

datatype signal = SIGKILL

text \<open>
  The keyword arguments of \<^verbatim>\<open>subprocess.Popen\<close>. The source builds them as a
  dictionary; the three keys that are set on some platforms only are optional.
\<close>

record popen_kwargs =
  stdin :: stream
  stdout :: stream
  stderr :: stream
  shell :: bool
  universal_newlines :: bool
  cwd :: string
  pass_fds :: "int list option"
  preexec_fn :: "preexec option"
  creationflags :: "creationflag option"

text \<open>
  The calls that \<^verbatim>\<open>acquire_lock\<close> makes to its collaborators, in the order in
  which it makes them:
  \<^item> \<open>Acquire path mode\<close> and \<open>Release path\<close>: entering and leaving the scope
    \<^verbatim>\<open>with self._lock.acquire(mode) as lock_file\<close> of the lock on \<open>path\<close>;
  \<^item> \<open>Yield\<close>: the \<^verbatim>\<open>yield\<close>, where the protected body of the caller runs;
  \<^item> \<open>Debug msg\<close>, \<open>Warning msg\<close>: \<^verbatim>\<open>logger.debug\<close> and \<^verbatim>\<open>logger.warning\<close>;
  \<^item> \<open>Popen command kwargs\<close>: \<^verbatim>\<open>subprocess.Popen(command, **popen_kwargs)\<close>;
  \<^item> \<open>Communicate r\<close>: \<^verbatim>\<open>p.communicate()\<close>, which returned when the subprocess
    had exited (\<open>r = None\<close>) or raised \<open>e\<close> (\<open>r = Some e\<close>);
  \<^item> \<open>Terminate\<close>, \<open>Wait\<close>: \<^verbatim>\<open>p.terminate()\<close> and \<^verbatim>\<open>p.wait()\<close>;
  \<^item> \<open>Killpg pgid sig\<close>: \<^verbatim>\<open>os.killpg(pgid, sig)\<close>.

  The lock provider \<^verbatim>\<open>pathutils.RwLock\<close> is not part of this file. Its
  \<^verbatim>\<open>acquire(mode)\<close> is a scope: the lock is held from \<open>Acquire\<close> to
  \<open>Release\<close>, and the \<^verbatim>\<open>with\<close> statement leaves the scope on every path,
  by falling off its end or by an exception.
\<close>

datatype event =
    Acquire string string
  | Release string
  | Yield
  | Debug string
  | Warning string
  | Popen string popen_kwargs
  | Communicate "exn option"
  | Terminate
  | Wait
  | Killpg nat signal

subsection \<open>The world\<close>

text \<open>
  What the collaborators answer during one call of \<^verbatim>\<open>acquire_lock\<close>:
  \<^item> \<open>os_name\<close> is \<^verbatim>\<open>os.name\<close>;
  \<^item> \<open>filesystem_folder\<close> and \<open>hook\<close> are the configuration values
    \<^verbatim>\<open>storage.filesystem_folder\<close> and \<^verbatim>\<open>storage.hook\<close>;
  \<^item> \<open>debug_enabled\<close> is \<^verbatim>\<open>logger.isEnabledFor(logging.DEBUG)\<close>;
  \<^item> \<open>fileno\<close> is \<^verbatim>\<open>lock_file.fileno()\<close>;
  \<^item> \<open>body\<close> is what the protected body does at the \<^verbatim>\<open>yield\<close>: it completes
    (\<open>None\<close>) or raises (\<open>Some e\<close>);
  \<^item> \<open>pid\<close> is \<^verbatim>\<open>p.pid\<close>, \<open>returncode\<close> is \<^verbatim>\<open>p.returncode\<close> once the subprocess
    has exited, \<open>hook_stdout\<close> and \<open>hook_stderr\<close> are what it wrote;
  \<^item> \<open>interrupt\<close> says whether \<^verbatim>\<open>p.communicate()\<close> returns (\<open>None\<close>) or raises
    (\<open>Some e\<close>);
  \<^item> \<open>group_left\<close> says whether \<^verbatim>\<open>os.killpg\<close> still finds a process in the group
    of the hook (otherwise it raises \<^verbatim>\<open>ProcessLookupError\<close>).

  These are the answers that the source tells apart. The calls for which it
  has no handler are taken to return: the lock provider grants the lock,
  \<^verbatim>\<open>Popen\<close> creates the subprocess, \<^verbatim>\<open>p.terminate()\<close> and \<^verbatim>\<open>p.wait()\<close>
  return, and \<^verbatim>\<open>os.killpg\<close> fails with \<^verbatim>\<open>ProcessLookupError\<close> only.
\<close>

record world =
  os_name :: string
  filesystem_folder :: string
  hook :: string
  debug_enabled :: bool
  fileno :: int
  body :: "exn option"
  pid :: nat
  returncode :: int
  hook_stdout :: string
  hook_stderr :: string
  interrupt :: "exn option"
  group_left :: bool

subsection \<open>The command line of the hook\<close>

text \<open>
  \<^verbatim>\<open>shlex.quote\<close> of the Python standard library. The empty string becomes
  \<^verbatim>\<open>''\<close>; a string of safe characters (ASCII letters, digits and
  \<^verbatim>\<open>_@%+=:,./-\<close>) is returned as it is; any other string is put in single
  quotes, each single quote in it replaced by \<^verbatim>\<open>'"'"'\<close>.
\<close>

definition safe_chars :: string where
  "safe_chars =
     ''abcdefghijklmnopqrstuvwxyzABCDEFGHIJKLMNOPQRSTUVWXYZ0123456789_@%+=:,./-''"

definition shlex_quote :: "string \<Rightarrow> string" where
  "shlex_quote s =
     (if s = [] then [CHR 0x27, CHR 0x27]
      else if list_all (\<lambda>c. c \<in> set safe_chars) s then s
      else [CHR 0x27] @
           concat (map (\<lambda>c. if c = CHR 0x27
                             then [CHR 0x27, CHR 0x22, CHR 0x27, CHR 0x22, CHR 0x27]
                             else [c]) s) @
           [CHR 0x27])"

text \<open>
  Python's \<^verbatim>\<open>hook % {"user": v}\<close>, read from left to right. Outside a directive
  the text is copied. After a \<^verbatim>\<open>%\<close>, a second \<^verbatim>\<open>%\<close> gives one \<^verbatim>\<open>%\<close>, and
  \<^verbatim>\<open>(\<close> opens a mapping key, which runs to the matching \<^verbatim>\<open>)\<close>; a key other
  than \<^verbatim>\<open>user\<close> raises \<^verbatim>\<open>KeyError\<close>, a format that ends inside a directive
  raises \<^verbatim>\<open>ValueError\<close>, and \<^verbatim>\<open>%(user)s\<close> gives \<open>v\<close>. Flags, widths and the
  conversions other than \<^verbatim>\<open>s\<close> are not modelled.
\<close>

datatype fmt_state = Text | Percent | Key nat string | Conversion string

fun percent_format_from :: "fmt_state \<Rightarrow> string \<Rightarrow> string \<Rightarrow> exn + string" where
  "percent_format_from Text v [] = Inr []"
| "percent_format_from Text v (c # cs) =
     (if c = CHR ''%'' then percent_format_from Percent v cs
      else map_sum id ((#) c) (percent_format_from Text v cs))"
| "percent_format_from Percent v [] = Inl (ValueError ''incomplete format'')"
| "percent_format_from Percent v (c # cs) =
     (if c = CHR ''%'' then map_sum id ((#) c) (percent_format_from Text v cs)
      else if c = CHR ''('' then percent_format_from (Key 0 []) v cs
      else Inl Unmodelled_directive)"
| "percent_format_from (Key depth k) v [] = Inl (ValueError ''incomplete format key'')"
| "percent_format_from (Key depth k) v (c # cs) =
     (if c = CHR '')'' then
        (case depth of
           0 \<Rightarrow> percent_format_from (Conversion (rev k)) v cs
         | Suc d \<Rightarrow> percent_format_from (Key d (c # k)) v cs)
      else if c = CHR ''('' then percent_format_from (Key (Suc depth) (c # k)) v cs
      else percent_format_from (Key depth (c # k)) v cs)"
| "percent_format_from (Conversion k) v [] =
     (if k = ''user'' then Inl (ValueError ''incomplete format'') else Inl (KeyError k))"
| "percent_format_from (Conversion k) v (c # cs) =
     (if k \<noteq> ''user'' then Inl (KeyError k)
      else if c = CHR ''s'' then map_sum id ((@) v) (percent_format_from Text v cs)
      else Inl Unmodelled_directive)"

definition percent_format :: "string \<Rightarrow> string \<Rightarrow> exn + string" where
  "percent_format template v = percent_format_from Text v template"

text \<open>
  Line 77: \<^verbatim>\<open>command = hook % {"user": shlex.quote(user or "Anonymous")}\<close>.
  The argument \<^verbatim>\<open>user\<close> is \<^verbatim>\<open>None\<close> or a string; \<^verbatim>\<open>user or "Anonymous"\<close> is
  \<^verbatim>\<open>user\<close> when that is truthy, a string that is not empty.
\<close>

definition user_or_anonymous :: "string option \<Rightarrow> string" where
  "user_or_anonymous user =
     (case user of None \<Rightarrow> ''Anonymous'' | Some u \<Rightarrow> if u \<noteq> [] then u else ''Anonymous'')"

definition hook_command :: "string \<Rightarrow> string option \<Rightarrow> exn + string" where
  "hook_command template user = percent_format template (shlex_quote (user_or_anonymous user))"

text \<open>
  Substitution as the specification words it, for comparison with
  \<open>percent_format\<close>: reading the template from the left, each placeholder
  \<^verbatim>\<open>%(user)s\<close> is replaced by \<open>v\<close>, each \<^verbatim>\<open>%%\<close> by one \<^verbatim>\<open>%\<close>, and every other
  character is copied.
\<close>

fun substitute :: "string \<Rightarrow> string \<Rightarrow> string" where
  "substitute v [] = []"
| "substitute v (c # cs) =
     (if take 8 (c # cs) = ''%(user)s'' then v @ substitute v (drop 7 cs)
      else if take 2 (c # cs) = ''%%'' then CHR ''%'' # substitute v (drop 1 cs)
      else c # substitute v cs)"

text \<open>
  What shell-escaped means, by the quoting rules of the POSIX shell:
  \<open>sh_word Bare text\<close> reads \<open>text\<close> as one word of a command line and gives the
  string that the shell passes on for it. Between single quotes every
  character stands for itself; between double quotes every character but
  \<^verbatim>\<open>$\<close>, the backquote and the backslash does; outside quotes only the safe
  characters are read as themselves. The result is \<open>None\<close> when a quote is left
  open or a character is met where it could be special to the shell, so a
  text that is read as \<open>Some s\<close> is the single argument \<open>s\<close> and nothing else.
\<close>

datatype sh_state = Bare | Single | Double

fun sh_word :: "sh_state \<Rightarrow> string \<Rightarrow> string option" where
  "sh_word Bare [] = Some []"
| "sh_word Bare (c # cs) =
     (if c = CHR 0x27 then sh_word Single cs
      else if c = CHR 0x22 then sh_word Double cs
      else if c \<in> set safe_chars then map_option ((#) c) (sh_word Bare cs)
      else None)"
| "sh_word Single [] = None"
| "sh_word Single (c # cs) =
     (if c = CHR 0x27 then sh_word Bare cs
      else map_option ((#) c) (sh_word Single cs))"
| "sh_word Double [] = None"
| "sh_word Double (c # cs) =
     (if c = CHR 0x22 then sh_word Bare cs
      else if c = CHR ''$'' \<or> c = CHR 0x60 \<or> c = CHR 0x5C then None
      else map_option ((#) c) (sh_word Double cs))"

subsection \<open>The storage lock and the hook\<close>

text \<open>
  \<^verbatim>\<open>StorageLockMixin.__init__\<close>: the storage lock is an \<^verbatim>\<open>RwLock\<close> on
  \<^verbatim>\<open>.Radicale.lock\<close> in the storage folder.
\<close>

definition storage_lock_path :: "world \<Rightarrow> string" where
  "storage_lock_path w = path_join (filesystem_folder w) ''.Radicale.lock''"

text \<open>Lines 57 to 76: the keyword arguments for \<^verbatim>\<open>Popen\<close>.\<close>

definition hook_popen_kwargs :: "world \<Rightarrow> popen_kwargs" where
  "hook_popen_kwargs w =
     (let folder = filesystem_folder w;
          debug = debug_enabled w
      in \<lparr> stdin = DEVNULL,
           stdout = (if debug then PIPE else DEVNULL),
           stderr = (if debug then PIPE else DEVNULL),
           shell = True,
           universal_newlines = True,
           cwd = folder,
           pass_fds = (if os_name w = ''posix'' then Some [fileno w] else None),
           preexec_fn = (if os_name w = ''posix'' then Some Setpgrp else None),
           creationflags =
             (if os_name w = ''posix'' then None
              else if os_name w = ''nt'' then Some CREATE_NEW_PROCESS_GROUP
              else None) \<rparr>)"

text \<open>
  What \<^verbatim>\<open>p.communicate()\<close> returns for one stream once the subprocess has
  exited: the text the subprocess wrote when the stream is a pipe, \<^verbatim>\<open>None\<close>
  otherwise.
\<close>

definition captured :: "stream \<Rightarrow> string \<Rightarrow> string option" where
  "captured s written = (case s of PIPE \<Rightarrow> Some written | DEVNULL \<Rightarrow> None)"

text \<open>
  Lines 87 to 97, the \<^verbatim>\<open>finally\<close> block: on POSIX the process group of the hook
  is killed; when \<^verbatim>\<open>os.killpg\<close> raises \<^verbatim>\<open>ProcessLookupError\<close> nothing else
  happens, when it returns a warning is logged.
\<close>

definition kill_remaining :: "world \<Rightarrow> event list" where
  "kill_remaining w =
     (if os_name w = ''posix'' then
        Killpg (pid w) SIGKILL #
        (if group_left w then [Warning ''Killed remaining child processes of hook''] else [])
      else [])"

text \<open>
  Lines 80 to 97, the \<^verbatim>\<open>try\<close> statement. Either \<^verbatim>\<open>p.communicate()\<close> returns
  the two captured texts, or it raises; then the handler terminates the
  subprocess, waits for it and raises the same exception again. The
  \<^verbatim>\<open>finally\<close> block runs on both paths.
\<close>

definition wait_for_hook ::
  "world \<Rightarrow> popen_kwargs \<Rightarrow> event list \<times> (exn + string option \<times> string option)" where
  "wait_for_hook w kwargs =
     (case interrupt w of
        None \<Rightarrow>
          ([Communicate None] @ kill_remaining w,
           Inr (captured (stdout kwargs) (hook_stdout w), captured (stderr kwargs) (hook_stderr w)))
      | Some e \<Rightarrow>
          ([Communicate (Some e), Terminate, Wait] @ kill_remaining w, Inl e))"

text \<open>
  Lines 98 to 101: \<^verbatim>\<open>if data: logger.debug("Captured ... hook:\n%s", data)\<close>.
\<close>

definition log_captured :: "string \<Rightarrow> string option \<Rightarrow> event list" where
  "log_captured name data =
     (case data of
        None \<Rightarrow> []
      | Some text \<Rightarrow>
          if text \<noteq> [] then [Debug (''Captured '' @ name @ '' hook:'' @ [CHR 0x0A] @ text)]
          else [])"

text \<open>
  Lines 57 to 103, the body of \<^verbatim>\<open>if mode == "w" and hook\<close>: the events and
  the exception raised, if any.
\<close>

definition run_hook :: "world \<Rightarrow> string option \<Rightarrow> event list \<times> exn option" where
  "run_hook w user =
     (let popen_kwargs = hook_popen_kwargs w
      in case hook_command (hook w) user of
           Inl e \<Rightarrow> ([], Some e)
         | Inr command \<Rightarrow>
             (case wait_for_hook w popen_kwargs of
                (waited, Inl e) \<Rightarrow>
                  ([Debug ''Running hook'', Popen command popen_kwargs] @ waited, Some e)
              | (waited, Inr (stdout_data, stderr_data)) \<Rightarrow>
                  ([Debug ''Running hook'', Popen command popen_kwargs] @ waited @
                   log_captured ''stdout'' stdout_data @
                   log_captured ''stderr'' stderr_data,
                   if returncode w \<noteq> 0
                   then Some (CalledProcessError (returncode w) command)
                   else None)))"

text \<open>
  Lines 50 to 103, \<^verbatim>\<open>acquire_lock(self, mode, user=None)\<close> used as a context
  manager around a body. The lock scope is entered, the body runs at the
  \<^verbatim>\<open>yield\<close>; an exception of the body leaves the scope at once; otherwise the
  hook runs when the mode is \<^verbatim>\<open>"w"\<close> and the configured hook is not empty.
  The scope is left, releasing the lock, on every path. The result is the
  trace of events and the exception that leaves \<^verbatim>\<open>acquire_lock\<close>, if any.
\<close>

definition acquire_lock :: "world \<Rightarrow> string \<Rightarrow> string option \<Rightarrow> event list \<times> exn option" where
  "acquire_lock w mode user =
     (let (inside, raised) =
            (case body w of
               Some e \<Rightarrow> ([Yield], Some e)
             | None \<Rightarrow>
                 if mode = ''w'' \<and> hook w \<noteq> [] then
                   (let (events, raised) = run_hook w user in (Yield # events, raised))
                 else ([Yield], None))
      in ([Acquire (storage_lock_path w) mode] @ inside @ [Release (storage_lock_path w)],
          raised))"

subsection \<open>Reading a trace\<close>

text \<open>The command lines of the subprocesses started in a trace, in order.\<close>

fun popen_commands :: "event list \<Rightarrow> string list" where
  "popen_commands [] = []"
| "popen_commands (Popen command kwargs # es) = command # popen_commands es"
| "popen_commands (e # es) = popen_commands es"

text \<open>The keyword arguments of the subprocesses started in a trace, in order.\<close>

fun popen_arguments :: "event list \<Rightarrow> popen_kwargs list" where
  "popen_arguments [] = []"
| "popen_arguments (Popen command kwargs # es) = kwargs # popen_arguments es"
| "popen_arguments (e # es) = popen_arguments es"

text \<open>The messages logged at debug level in a trace, in order.\<close>

fun debug_messages :: "event list \<Rightarrow> string list" where
  "debug_messages [] = []"
| "debug_messages (Debug msg # es) = msg # debug_messages es"
| "debug_messages (e # es) = debug_messages es"

text \<open>Whether an event concerns a subprocess.\<close>

fun subprocess_event :: "event \<Rightarrow> bool" where
  "subprocess_event (Popen command kwargs) = True"
| "subprocess_event (Communicate r) = True"
| "subprocess_event Terminate = True"
| "subprocess_event Wait = True"
| "subprocess_event (Killpg pgid sig) = True"
| "subprocess_event e = False"

text \<open>
  An observer of a trace. It follows whether the storage lock is held and in
  which mode, whether the body has run, whether a started subprocess has not
  been waited on yet (\<^verbatim>\<open>p.communicate()\<close> that returns and \<^verbatim>\<open>p.wait()\<close> are
  the two calls that return only when the subprocess has exited), and how many
  subprocesses were started. It stays \<open>sound\<close> as long as
  \<^item> the lock is acquired only when it is not held, and released only when it
    is held and no subprocess is waiting to be waited on;
  \<^item> the body runs while the lock is held;
  \<^item> a subprocess is started only while the lock is held in write mode, after
    the body, and when no other subprocess is running;
  \<^item> the calls on the subprocess are made while the lock is held.
\<close>

record observer =
  lock_held :: bool
  held_mode :: string
  body_done :: bool
  hook_running :: bool
  hooks_started :: nat
  sound :: bool

definition start :: observer where
  "start = \<lparr> lock_held = False, held_mode = [], body_done = False, hook_running = False,
             hooks_started = 0, sound = True \<rparr>"

fun observe :: "observer \<Rightarrow> event \<Rightarrow> observer" where
  "observe m (Acquire path mode) =
     m\<lparr> lock_held := True, held_mode := mode, sound := sound m \<and> \<not> lock_held m \<rparr>"
| "observe m (Release path) =
     m\<lparr> lock_held := False, sound := sound m \<and> lock_held m \<and> \<not> hook_running m \<rparr>"
| "observe m Yield =
     m\<lparr> body_done := True, sound := sound m \<and> lock_held m \<rparr>"
| "observe m (Popen command kwargs) =
     m\<lparr> hook_running := True, hooks_started := Suc (hooks_started m),
        sound := sound m \<and> lock_held m \<and> held_mode m = ''w'' \<and> body_done m \<and>
                 \<not> hook_running m \<rparr>"
| "observe m (Communicate r) =
     (case r of
        None \<Rightarrow> m\<lparr> hook_running := False, sound := sound m \<and> lock_held m \<rparr>
      | Some e \<Rightarrow> m\<lparr> sound := sound m \<and> lock_held m \<rparr>)"
| "observe m Terminate = m\<lparr> sound := sound m \<and> lock_held m \<rparr>"
| "observe m Wait = m\<lparr> hook_running := False, sound := sound m \<and> lock_held m \<rparr>"
| "observe m (Killpg pgid sig) = m\<lparr> sound := sound m \<and> lock_held m \<rparr>"
| "observe m (Debug msg) = m"
| "observe m (Warning msg) = m"

text \<open>
  A trace is disciplined when the observer is sound at its end and finds the
  lock released and no subprocess left unwaited.
\<close>

definition disciplined :: "event list \<Rightarrow> bool" where
  "disciplined trace =
     (let m = foldl observe start trace
      in sound m \<and> \<not> lock_held m \<and> \<not> hook_running m)"

subsection \<open>An example world\<close>

text \<open>
  A POSIX host with debug logging, the hook of the documentation's example, a
  body that completes, and a hook that prints a line and exits with status 0.
\<close>

definition example_world :: world where
  "example_world =
     \<lparr> os_name = ''posix'', filesystem_folder = ''/srv/radicale'',
       hook = ''echo %(user)s > out.txt'', debug_enabled = True, fileno = 5,
       body = None, pid = 4242, returncode = 0, hook_stdout = ''done'',
       hook_stderr = [], interrupt = None, group_left = False \<rparr>"

section \<open>Properties\<close>

subsection \<open>The cache lock\<close>

lemma path_join_relative:
  "a \<noteq> [] \<Longrightarrow> last a \<noteq> CHR ''/'' \<Longrightarrow> b \<noteq> [] \<Longrightarrow> hd b \<noteq> CHR ''/'' \<Longrightarrow>
   path_join a b = a @ ''/'' @ b"
  by (cases b) (simp_all add: path_join_def)

lemma cache_folder_shape:
  "path_join p ''.Radicale.cache'' \<noteq> [] \<and> last (path_join p ''.Radicale.cache'') = CHR ''e''"
  by (simp add: path_join_def)

lemma cache_lock_name_shape:
  "cache_lock_name ns \<noteq> [] \<and> hd (cache_lock_name ns) = CHR ''.''"
  by (simp add: cache_lock_name_def)

lemma cache_lock_path:
  "path_join (path_join p ''.Radicale.cache'') (cache_lock_name ns) =
   path_join p ''.Radicale.cache'' @ ''/'' @ cache_lock_name ns"
proof -
  let ?cf = "path_join p ''.Radicale.cache''"
  have "?cf \<noteq> []" and "last ?cf \<noteq> CHR ''/''"
    using cache_folder_shape [of p] by simp_all
  moreover have "cache_lock_name ns \<noteq> []" and "hd (cache_lock_name ns) \<noteq> CHR ''/''"
    using cache_lock_name_shape [of ns] by simp_all
  ultimately show ?thesis
    by (rule path_join_relative)
qed

lemma cache_lock_name_inj: "cache_lock_name ns = cache_lock_name ns' \<Longrightarrow> ns = ns'"
  by (auto simp: cache_lock_name_def split: if_splits)

text \<open>
  Claim C3. Whatever the namespace, a call to \<^verbatim>\<open>_acquire_cache_lock\<close> made while
  the storage lock is held in write mode returns the no-op scope
  \<^verbatim>\<open>contextlib.ExitStack()\<close>: it leaves the file system as it was (the cache
  directory is not created) and the scope locks no file.
\<close>

theorem acquire_cache_lock_write_noop:
  "acquire_cache_lock ''w'' filesystem_path ns dirs = (ExitStack, dirs) \<and>
   lock_file_of (fst (acquire_cache_lock ''w'' filesystem_path ns dirs)) = None"
  by (simp add: acquire_cache_lock_def)

text \<open>
  Claim C5. When the storage lock is not held in write mode, the call creates
  the cache directory \<^verbatim>\<open>.Radicale.cache\<close> of the collection through
  \<^verbatim>\<open>_makedirs_synced\<close> (so it exists afterwards, and nothing else changes) and
  returns a write-mode lock scope on a file inside that directory, named
  \<^verbatim>\<open>.Radicale.lock\<close> for the empty namespace and \<^verbatim>\<open>.Radicale.lock.<ns>\<close>
  otherwise; calls with different namespaces get different lock files.
\<close>

theorem acquire_cache_lock_other:
  assumes "locked \<noteq> ''w''"
  shows "acquire_cache_lock locked filesystem_path ns dirs =
           (RwLock_scope
              (path_join filesystem_path ''.Radicale.cache'' @ ''/'' @
                 (if ns = [] then ''.Radicale.lock'' else ''.Radicale.lock.'' @ ns))
              ''w'',
            makedirs_synced (path_join filesystem_path ''.Radicale.cache'') dirs) \<and>
         path_join filesystem_path ''.Radicale.cache''
           \<in> snd (acquire_cache_lock locked filesystem_path ns dirs) \<and>
         (ns \<noteq> ns' \<longrightarrow>
           lock_file_of (fst (acquire_cache_lock locked filesystem_path ns dirs)) \<noteq>
           lock_file_of (fst (acquire_cache_lock locked filesystem_path ns' dirs)))"
proof (intro conjI)
  show "acquire_cache_lock locked filesystem_path ns dirs =
           (RwLock_scope
              (path_join filesystem_path ''.Radicale.cache'' @ ''/'' @
                 (if ns = [] then ''.Radicale.lock'' else ''.Radicale.lock.'' @ ns))
              ''w'',
            makedirs_synced (path_join filesystem_path ''.Radicale.cache'') dirs)"
    using assms cache_lock_path [of filesystem_path ns]
    by (simp add: acquire_cache_lock_def Let_def cache_lock_name_def)
  show "path_join filesystem_path ''.Radicale.cache''
           \<in> snd (acquire_cache_lock locked filesystem_path ns dirs)"
    using assms by (simp add: acquire_cache_lock_def Let_def makedirs_synced_def)
  show "ns \<noteq> ns' \<longrightarrow>
           lock_file_of (fst (acquire_cache_lock locked filesystem_path ns dirs)) \<noteq>
           lock_file_of (fst (acquire_cache_lock locked filesystem_path ns' dirs))"
    using assms cache_lock_path [of filesystem_path ns] cache_lock_path [of filesystem_path ns']
    by (auto simp: acquire_cache_lock_def Let_def dest: cache_lock_name_inj)
qed

theorem acquire_cache_lock_other_witness:
  "''r'' \<noteq> ''w'' \<and>
   acquire_cache_lock ''r'' ''/srv/user/cal'' ''sync'' {''/srv/user/cal''} =
     (RwLock_scope ''/srv/user/cal/.Radicale.cache/.Radicale.lock.sync'' ''w'',
      {''/srv/user/cal/.Radicale.cache'', ''/srv/user/cal''}) \<and>
   ''sync'' \<noteq> [] \<and>
   lock_file_of (fst (acquire_cache_lock ''r'' ''/srv/user/cal'' ''sync'' {''/srv/user/cal''})) \<noteq>
   lock_file_of (fst (acquire_cache_lock ''r'' ''/srv/user/cal'' [] {''/srv/user/cal''}))"
proof -
  have h: "''r'' \<noteq> ''w''" by simp
  have p: "path_join ''/srv/user/cal'' ''.Radicale.cache'' = ''/srv/user/cal/.Radicale.cache''"
    by (simp add: path_join_def)
  show ?thesis
    using acquire_cache_lock_other [OF h, of "''/srv/user/cal''" "''sync''" "{''/srv/user/cal''}" "[]"]
    by (auto simp: p makedirs_synced_def)
qed

subsection \<open>The shape of a transaction\<close>

lemma run_hook_returned:
  assumes "hook_command (hook w) user = Inr command" and "interrupt w = None"
  shows "run_hook w user =
           ([Debug ''Running hook'', Popen command (hook_popen_kwargs w), Communicate None] @
            kill_remaining w @
            log_captured ''stdout'' (captured (stdout (hook_popen_kwargs w)) (hook_stdout w)) @
            log_captured ''stderr'' (captured (stderr (hook_popen_kwargs w)) (hook_stderr w)),
            if returncode w \<noteq> 0 then Some (CalledProcessError (returncode w) command) else None)"
  using assms by (simp add: run_hook_def wait_for_hook_def Let_def)

lemma run_hook_interrupted:
  assumes "hook_command (hook w) user = Inr command" and "interrupt w = Some e"
  shows "run_hook w user =
           ([Debug ''Running hook'', Popen command (hook_popen_kwargs w),
             Communicate (Some e), Terminate, Wait] @ kill_remaining w,
            Some e)"
  using assms by (simp add: run_hook_def wait_for_hook_def Let_def)

lemma run_hook_bad_template:
  assumes "hook_command (hook w) user = Inl e"
  shows "run_hook w user = ([], Some e)"
  using assms by (simp add: run_hook_def Let_def)

lemma acquire_lock_body_raises:
  assumes "body w = Some e"
  shows "acquire_lock w mode user =
           ([Acquire (storage_lock_path w) mode, Yield, Release (storage_lock_path w)], Some e)"
  using assms by (simp add: acquire_lock_def)

lemma acquire_lock_without_hook:
  assumes "mode \<noteq> ''w'' \<or> hook w = []"
  shows "acquire_lock w mode user =
           ([Acquire (storage_lock_path w) mode, Yield, Release (storage_lock_path w)], body w)"
  using assms by (cases "body w") (auto simp: acquire_lock_def)

lemma acquire_lock_with_hook:
  assumes "body w = None" and "hook w \<noteq> []"
  shows "acquire_lock w ''w'' user =
           ([Acquire (storage_lock_path w) ''w'', Yield] @ fst (run_hook w user) @
            [Release (storage_lock_path w)],
            snd (run_hook w user))"
  using assms by (simp add: acquire_lock_def split: prod.splits)

lemma example_command:
  "hook_command ''echo %(user)s > out.txt'' (Some ''alice'') = Inr ''echo alice > out.txt''"
  by (simp add: hook_command_def percent_format_def user_or_anonymous_def shlex_quote_def
      safe_chars_def)

lemma example_world_facts:
  "body example_world = None"
  "hook example_world \<noteq> []"
  "hook_command (hook example_world) (Some ''alice'') = Inr ''echo alice > out.txt''"
  "interrupt example_world = None"
  "storage_lock_path example_world = ''/srv/radicale/.Radicale.lock''"
  by (simp_all add: example_world_def example_command storage_lock_path_def path_join_def)

subsection \<open>Transactions that run no hook\<close>

text \<open>
  Claim C7. When the protected body raises, in any mode and whatever hook is
  configured, the only events are the acquisition of the lock, the body and
  the release of the lock: the lock is released, no subprocess is started, and
  the exception of the body is the one that leaves \<^verbatim>\<open>acquire_lock\<close>.
\<close>

theorem body_raises_releases_without_hook:
  assumes "body w = Some e"
  shows "acquire_lock w mode user =
           ([Acquire (storage_lock_path w) mode, Yield, Release (storage_lock_path w)], Some e) \<and>
         last (fst (acquire_lock w mode user)) = Release (storage_lock_path w) \<and>
         popen_commands (fst (acquire_lock w mode user)) = [] \<and>
         \<not> list_ex subprocess_event (fst (acquire_lock w mode user))"
  using assms by (simp add: acquire_lock_body_raises)

theorem body_raises_releases_without_hook_witness:
  "body (example_world\<lparr>body := Some (Exception ''disk full'')\<rparr>) = Some (Exception ''disk full'') \<and>
   acquire_lock (example_world\<lparr>body := Some (Exception ''disk full'')\<rparr>) ''w'' (Some ''alice'') =
     ([Acquire ''/srv/radicale/.Radicale.lock'' ''w'', Yield,
       Release ''/srv/radicale/.Radicale.lock''],
      Some (Exception ''disk full'')) \<and>
   popen_commands
     (fst (acquire_lock (example_world\<lparr>body := Some (Exception ''disk full'')\<rparr>) ''w''
        (Some ''alice''))) = []"
proof -
  have h: "body (example_world\<lparr>body := Some (Exception ''disk full'')\<rparr>) =
             Some (Exception ''disk full'')"
    by simp
  have p: "storage_lock_path (example_world\<lparr>body := Some (Exception ''disk full'')\<rparr>) =
             ''/srv/radicale/.Radicale.lock''"
    by (simp add: storage_lock_path_def example_world_def path_join_def)
  show ?thesis
    using body_raises_releases_without_hook [OF h, of "''w''" "Some ''alice''"]
    by (simp add: p)
qed

text \<open>
  Claim C8. A transaction in a mode other than \<^verbatim>\<open>"w"\<close>, read mode in
  particular, makes no call that concerns a subprocess, even when a hook is
  configured; neither does a write transaction when the configured hook is
  empty. In both cases the trace is the acquisition, the body and the release,
  and the outcome is the outcome of the body.
\<close>

theorem no_hook_unless_write_and_configured:
  assumes "mode \<noteq> ''w'' \<or> hook w = []"
  shows "\<not> list_ex subprocess_event (fst (acquire_lock w mode user)) \<and>
         popen_commands (fst (acquire_lock w mode user)) = [] \<and>
         acquire_lock w mode user =
           ([Acquire (storage_lock_path w) mode, Yield, Release (storage_lock_path w)], body w)"
  using assms by (simp add: acquire_lock_without_hook)

theorem no_hook_unless_write_and_configured_witness:
  "''r'' \<noteq> ''w'' \<and> hook example_world \<noteq> [] \<and>
   \<not> list_ex subprocess_event (fst (acquire_lock example_world ''r'' (Some ''alice''))) \<and>
   acquire_lock example_world ''r'' (Some ''alice'') =
     ([Acquire ''/srv/radicale/.Radicale.lock'' ''r'', Yield,
       Release ''/srv/radicale/.Radicale.lock''], None) \<and>
   hook (example_world\<lparr>hook := []\<rparr>) = [] \<and>
   \<not> list_ex subprocess_event
       (fst (acquire_lock (example_world\<lparr>hook := []\<rparr>) ''w'' (Some ''alice'')))"
proof -
  have r: "''r'' \<noteq> ''w'' \<or> hook example_world = []" by simp
  have e: "''w'' \<noteq> ''w'' \<or> hook (example_world\<lparr>hook := []\<rparr>) = []" by simp
  have c: "hook example_world \<noteq> []" by (simp add: example_world_def)
  show ?thesis
    using no_hook_unless_write_and_configured [OF r, of "Some ''alice''"]
      no_hook_unless_write_and_configured [OF e, of "Some ''alice''"] c example_world_facts
    by simp
qed

subsection \<open>A write transaction with a hook\<close>

lemma popen_commands_append:
  "popen_commands (xs @ ys) = popen_commands xs @ popen_commands ys"
  by (induction xs rule: popen_commands.induct) simp_all

lemma popen_arguments_append:
  "popen_arguments (xs @ ys) = popen_arguments xs @ popen_arguments ys"
  by (induction xs rule: popen_arguments.induct) simp_all

lemma debug_messages_append:
  "debug_messages (xs @ ys) = debug_messages xs @ debug_messages ys"
  by (induction xs rule: debug_messages.induct) simp_all

lemma kill_remaining_quiet:
  "popen_commands (kill_remaining w) = []"
  "popen_arguments (kill_remaining w) = []"
  "debug_messages (kill_remaining w) = []"
  by (simp_all add: kill_remaining_def)

lemma log_captured_quiet:
  "popen_commands (log_captured name data) = []"
  "popen_arguments (log_captured name data) = []"
  by (simp_all add: log_captured_def split: option.splits)

lemma observe_kill_remaining:
  assumes "lock_held m" and "sound m"
  shows "foldl observe m (kill_remaining w) = m"
  using assms by (simp add: kill_remaining_def)

lemma observe_log_captured:
  "foldl observe m (log_captured name data) = m"
  by (simp add: log_captured_def split: option.splits)

lemma run_hook_popen_commands:
  assumes "hook_command (hook w) user = Inr command"
  shows "popen_commands (fst (run_hook w user)) = [command]"
proof (cases "interrupt w")
  case None
  with assms show ?thesis
    by (simp add: run_hook_returned popen_commands_append kill_remaining_quiet
        log_captured_quiet)
next
  case (Some e)
  with assms show ?thesis
    by (simp add: run_hook_interrupted popen_commands_append kill_remaining_quiet)
qed

lemma run_hook_observed:
  assumes "hook_command (hook w) user = Inr command"
  shows "foldl observe
           \<lparr> lock_held = True, held_mode = ''w'', body_done = True, hook_running = False,
             hooks_started = 0, sound = True \<rparr>
           (fst (run_hook w user)) =
         \<lparr> lock_held = True, held_mode = ''w'', body_done = True, hook_running = False,
           hooks_started = 1, sound = True \<rparr>"
proof (cases "interrupt w")
  case None
  with assms show ?thesis
    by (simp add: run_hook_returned observe_kill_remaining observe_log_captured)
next
  case (Some e)
  with assms show ?thesis
    by (simp add: run_hook_interrupted observe_kill_remaining)
qed

lemma acquire_lock_observed:
  assumes "body w = None" and "hook w \<noteq> []" and "hook_command (hook w) user = Inr command"
  shows "foldl observe start (fst (acquire_lock w ''w'' user)) =
         \<lparr> lock_held = False, held_mode = ''w'', body_done = True, hook_running = False,
           hooks_started = 1, sound = True \<rparr>"
  using assms by (simp add: acquire_lock_with_hook start_def run_hook_observed)

lemma plain_transaction_disciplined:
  "disciplined [Acquire p mode, Yield, Release p]"
  by (simp add: disciplined_def start_def)

lemma acquire_lock_disciplined:
  "disciplined (fst (acquire_lock w mode user))"
proof (cases "body w = None \<and> mode = ''w'' \<and> hook w \<noteq> []")
  case False
  show ?thesis
  proof (cases "body w")
    case None
    with False have "mode \<noteq> ''w'' \<or> hook w = []" by simp
    then show ?thesis
      by (simp add: acquire_lock_without_hook plain_transaction_disciplined)
  next
    case (Some e)
    then show ?thesis
      by (simp add: acquire_lock_body_raises plain_transaction_disciplined)
  qed
next
  case True
  show ?thesis
  proof (cases "hook_command (hook w) user")
    case (Inl e)
    with True show ?thesis
      by (simp add: acquire_lock_with_hook run_hook_bad_template plain_transaction_disciplined)
  next
    case (Inr command)
    with True show ?thesis
      by (simp add: disciplined_def acquire_lock_observed)
  qed
qed

lemma acquire_lock_ends:
  "hd (fst (acquire_lock w mode user)) = Acquire (storage_lock_path w) mode"
  "last (fst (acquire_lock w mode user)) = Release (storage_lock_path w)"
  by (simp_all add: acquire_lock_def split: prod.splits)

text \<open>
  Claim C1. The trace of a write transaction begins with the acquisition of
  the storage lock in write mode and ends with its release, and it is
  disciplined: a subprocess is started only after the body, while the write
  lock is held, and it has been waited on, by \<^verbatim>\<open>p.communicate()\<close> returning or
  by \<^verbatim>\<open>p.wait()\<close> after \<^verbatim>\<open>p.terminate()\<close>, before the lock is released. When
  the body completes and a hook is configured (a template that the \<^verbatim>\<open>%\<close>
  operator accepts), exactly one subprocess is started, with the resolved
  command line.
\<close>

theorem hook_runs_once_inside_write_lock:
  "disciplined (fst (acquire_lock w ''w'' user)) \<and>
   hd (fst (acquire_lock w ''w'' user)) = Acquire (storage_lock_path w) ''w'' \<and>
   last (fst (acquire_lock w ''w'' user)) = Release (storage_lock_path w) \<and>
   (body w = None \<and> hook w \<noteq> [] \<and> hook_command (hook w) user = Inr command \<longrightarrow>
      hooks_started (foldl observe start (fst (acquire_lock w ''w'' user))) = 1 \<and>
      popen_commands (fst (acquire_lock w ''w'' user)) = [command])"
proof -
  have "hooks_started (foldl observe start (fst (acquire_lock w ''w'' user))) = 1"
    if "body w = None" and "hook w \<noteq> []" and "hook_command (hook w) user = Inr command"
    using that by (simp add: acquire_lock_observed)
  moreover have "popen_commands (fst (acquire_lock w ''w'' user)) = [command]"
    if "body w = None" and "hook w \<noteq> []" and "hook_command (hook w) user = Inr command"
    using that by (simp add: acquire_lock_with_hook popen_commands_append run_hook_popen_commands)
  ultimately show ?thesis
    by (simp add: acquire_lock_disciplined acquire_lock_ends)
qed

theorem hook_runs_once_inside_write_lock_witness:
  "body example_world = None \<and> hook example_world \<noteq> [] \<and>
   hook_command (hook example_world) (Some ''alice'') = Inr ''echo alice > out.txt'' \<and>
   disciplined (fst (acquire_lock example_world ''w'' (Some ''alice''))) \<and>
   hooks_started (foldl observe start (fst (acquire_lock example_world ''w'' (Some ''alice'')))) = 1 \<and>
   popen_commands (fst (acquire_lock example_world ''w'' (Some ''alice''))) =
     [''echo alice > out.txt''] \<and>
   hd (fst (acquire_lock example_world ''w'' (Some ''alice''))) =
     Acquire ''/srv/radicale/.Radicale.lock'' ''w'' \<and>
   last (fst (acquire_lock example_world ''w'' (Some ''alice''))) =
     Release ''/srv/radicale/.Radicale.lock''"
  using hook_runs_once_inside_write_lock [of example_world "Some ''alice''" "''echo alice > out.txt''"]
  by (simp add: example_world_facts)

lemma observer_rejects_early_release:
  "\<not> disciplined [Acquire p ''w'', Yield, Popen c k, Release p, Communicate None]"
  by (simp add: disciplined_def start_def)

lemma observer_rejects_hook_without_lock:
  "\<not> disciplined [Acquire p ''w'', Yield, Release p, Popen c k, Communicate None]"
  by (simp add: disciplined_def start_def)

text \<open>
  Claim C2. When \<^verbatim>\<open>p.communicate()\<close> raises, whatever it raises, the next
  calls are \<^verbatim>\<open>p.terminate()\<close> and then \<^verbatim>\<open>p.wait()\<close>; after the cleanup of the
  process group and the release of the lock, the exception that leaves
  \<^verbatim>\<open>acquire_lock\<close> is the one that \<^verbatim>\<open>p.communicate()\<close> raised.
\<close>

theorem interrupted_wait_terminates_then_reraises:
  assumes "body w = None" and "hook w \<noteq> []" and "hook_command (hook w) user = Inr command"
    and "interrupt w = Some e"
  shows "acquire_lock w ''w'' user =
           ([Acquire (storage_lock_path w) ''w'', Yield, Debug ''Running hook'',
             Popen command (hook_popen_kwargs w),
             Communicate (Some e), Terminate, Wait] @
            kill_remaining w @ [Release (storage_lock_path w)],
            Some e)"
  using assms by (simp add: acquire_lock_with_hook run_hook_interrupted)

theorem interrupted_wait_terminates_then_reraises_witness:
  "body (example_world\<lparr>interrupt := Some KeyboardInterrupt\<rparr>) = None \<and>
   hook (example_world\<lparr>interrupt := Some KeyboardInterrupt\<rparr>) \<noteq> [] \<and>
   hook_command (hook (example_world\<lparr>interrupt := Some KeyboardInterrupt\<rparr>)) (Some ''alice'') =
     Inr ''echo alice > out.txt'' \<and>
   interrupt (example_world\<lparr>interrupt := Some KeyboardInterrupt\<rparr>) = Some KeyboardInterrupt \<and>
   acquire_lock (example_world\<lparr>interrupt := Some KeyboardInterrupt\<rparr>) ''w'' (Some ''alice'') =
     ([Acquire ''/srv/radicale/.Radicale.lock'' ''w'', Yield, Debug ''Running hook'',
       Popen ''echo alice > out.txt''
         \<lparr> stdin = DEVNULL, stdout = PIPE, stderr = PIPE, shell = True,
           universal_newlines = True, cwd = ''/srv/radicale'', pass_fds = Some [5],
           preexec_fn = Some Setpgrp, creationflags = None \<rparr>,
       Communicate (Some KeyboardInterrupt), Terminate, Wait, Killpg 4242 SIGKILL,
       Release ''/srv/radicale/.Radicale.lock''],
      Some KeyboardInterrupt)"
proof -
  let ?w = "example_world\<lparr>interrupt := Some KeyboardInterrupt\<rparr>"
  have b: "body ?w = None" and h: "hook ?w \<noteq> []"
    and c: "hook_command (hook ?w) (Some ''alice'') = Inr ''echo alice > out.txt''"
    and i: "interrupt ?w = Some KeyboardInterrupt"
    using example_world_facts by simp_all
  have p: "storage_lock_path ?w = ''/srv/radicale/.Radicale.lock''"
    using example_world_facts(5) by (simp add: storage_lock_path_def)
  have k: "kill_remaining ?w = [Killpg 4242 SIGKILL]"
    by (simp add: kill_remaining_def example_world_def)
  have a: "hook_popen_kwargs ?w =
             \<lparr> stdin = DEVNULL, stdout = PIPE, stderr = PIPE, shell = True,
               universal_newlines = True, cwd = ''/srv/radicale'', pass_fds = Some [5],
               preexec_fn = Some Setpgrp, creationflags = None \<rparr>"
    by (simp add: hook_popen_kwargs_def example_world_def)
  show ?thesis
    using interrupted_wait_terminates_then_reraises [OF b h c i] b h c i
    by (simp add: p k a)
qed

text \<open>
  Claim C4. In a write transaction whose hook was started with command line
  \<open>command\<close> and waited on without interruption, nothing is raised when the
  subprocess exited with status 0, and \<^verbatim>\<open>CalledProcessError\<close> with the exit
  status and that same command line is raised when the status is not 0.
\<close>

theorem hook_exit_status_decides:
  assumes "body w = None" and "hook w \<noteq> []" and "hook_command (hook w) user = Inr command"
    and "interrupt w = None"
  shows "popen_commands (fst (acquire_lock w ''w'' user)) = [command] \<and>
         (returncode w = 0 \<longrightarrow> snd (acquire_lock w ''w'' user) = None) \<and>
         (returncode w \<noteq> 0 \<longrightarrow>
            snd (acquire_lock w ''w'' user) = Some (CalledProcessError (returncode w) command))"
proof -
  have "popen_commands (fst (acquire_lock w ''w'' user)) = [command]"
    using assms by (simp add: acquire_lock_with_hook popen_commands_append run_hook_popen_commands)
  moreover have "snd (acquire_lock w ''w'' user) =
      (if returncode w \<noteq> 0 then Some (CalledProcessError (returncode w) command) else None)"
    using assms by (simp add: acquire_lock_with_hook run_hook_returned)
  ultimately show ?thesis by simp
qed

theorem hook_exit_status_decides_witness:
  "body example_world = None \<and> hook example_world \<noteq> [] \<and>
   hook_command (hook example_world) (Some ''alice'') = Inr ''echo alice > out.txt'' \<and>
   interrupt example_world = None \<and> returncode example_world = 0 \<and>
   snd (acquire_lock example_world ''w'' (Some ''alice'')) = None \<and>
   body (example_world\<lparr>returncode := 7\<rparr>) = None \<and>
   hook (example_world\<lparr>returncode := 7\<rparr>) \<noteq> [] \<and>
   hook_command (hook (example_world\<lparr>returncode := 7\<rparr>)) (Some ''alice'') =
     Inr ''echo alice > out.txt'' \<and>
   interrupt (example_world\<lparr>returncode := 7\<rparr>) = None \<and>
   returncode (example_world\<lparr>returncode := 7\<rparr>) \<noteq> 0 \<and>
   snd (acquire_lock (example_world\<lparr>returncode := 7\<rparr>) ''w'' (Some ''alice'')) =
     Some (CalledProcessError 7 ''echo alice > out.txt'')"
proof -
  let ?w = "example_world\<lparr>returncode := 7\<rparr>"
  have z: "returncode example_world = 0"
    by (simp add: example_world_def)
  have b: "body ?w = None" and h: "hook ?w \<noteq> []"
    and c: "hook_command (hook ?w) (Some ''alice'') = Inr ''echo alice > out.txt''"
    and i: "interrupt ?w = None"
    using example_world_facts by simp_all
  show ?thesis
    using hook_exit_status_decides [OF example_world_facts(1) example_world_facts(2)
        example_world_facts(3) example_world_facts(4)]
      hook_exit_status_decides [OF b h c i] example_world_facts z
    by simp
qed

subsection \<open>The command line\<close>

lemma safe_not_quote:
  "c \<in> set safe_chars \<Longrightarrow> c \<noteq> CHR 0x27 \<and> c \<noteq> CHR 0x22"
  by (auto simp: safe_chars_def)

lemma sh_word_safe:
  "list_all (\<lambda>c. c \<in> set safe_chars) s \<Longrightarrow> sh_word Bare s = Some s"
  by (induction s) (auto dest: safe_not_quote)

lemma sh_word_single:
  "sh_word Single
     (concat (map (\<lambda>c. if c = CHR 0x27
                        then [CHR 0x27, CHR 0x22, CHR 0x27, CHR 0x22, CHR 0x27]
                        else [c]) s) @ [CHR 0x27]) = Some s"
  by (induction s) simp_all

lemma sh_word_shlex_quote: "sh_word Bare (shlex_quote s) = Some s"
  by (simp add: shlex_quote_def sh_word_safe sh_word_single)

lemma key_success:
  "percent_format_from (Key d k) v xs = Inr c \<Longrightarrow>
   d = 0 \<and> (\<exists>key rest c'. xs = key @ '')s'' @ rest \<and> rev k @ key = ''user'' \<and>
              percent_format_from Text v rest = Inr c' \<and> c = v @ c')"
proof (induction xs arbitrary: d k)
  case Nil
  then show ?case by simp
next
  case (Cons x xs)
  show ?case
  proof (cases "x = CHR '')''")
    case True
    show ?thesis
    proof (cases d)
      case 0
      with True Cons.prems
      have conv: "percent_format_from (Conversion (rev k)) v xs = Inr c" by simp
      then have k: "rev k = ''user''"
        by (cases xs) (auto split: if_splits)
      with conv obtain rest where xs: "xs = CHR ''s'' # rest"
        and r: "map_sum id ((@) v) (percent_format_from Text v rest) = Inr c"
        by (cases xs) (auto split: if_splits)
      from r obtain c' where "percent_format_from Text v rest = Inr c'" and "c = v @ c'"
        by (cases "percent_format_from Text v rest") auto
      with 0 True xs k show ?thesis
        by (intro conjI exI [of _ "[]"] exI [of _ rest] exI [of _ c']) simp_all
    next
      case (Suc d')
      with True Cons.prems
      have "percent_format_from (Key d' (x # k)) v xs = Inr c" by simp
      from Cons.IH [OF this] obtain key where "rev (x # k) @ key = ''user''" by blast
      then have "x \<in> set ''user''"
        by (metis in_set_conv_decomp append.assoc rev.simps(2) append_Cons append_Nil)
      with True show ?thesis by simp
    qed
  next
    case False
    show ?thesis
    proof (cases "x = CHR ''(''")
      case True
      with Cons.prems
      have "percent_format_from (Key (Suc d) (x # k)) v xs = Inr c" by simp
      from Cons.IH [OF this] show ?thesis by simp
    next
      case notopen: False
      with False Cons.prems
      have "percent_format_from (Key d (x # k)) v xs = Inr c" by simp
      from Cons.IH [OF this] obtain key rest c'
        where "d = 0" and "xs = key @ '')s'' @ rest" and "rev (x # k) @ key = ''user''"
          and "percent_format_from Text v rest = Inr c'" and "c = v @ c'"
        by blast
      then show ?thesis
        by (intro conjI exI [of _ "x # key"] exI [of _ rest] exI [of _ c']) simp_all
    qed
  qed
qed

lemma percent_success:
  assumes "percent_format_from Percent v xs = Inr c"
  shows "(\<exists>rest c'. xs = CHR ''%'' # rest \<and> percent_format_from Text v rest = Inr c' \<and>
                     c = CHR ''%'' # c') \<or>
         (\<exists>rest c'. xs = ''(user)s'' @ rest \<and> percent_format_from Text v rest = Inr c' \<and>
                     c = v @ c')"
proof (cases xs)
  case Nil
  with assms show ?thesis by simp
next
  case (Cons x rest)
  show ?thesis
  proof (cases "x = CHR ''%''")
    case True
    with Cons assms have "map_sum id ((#) x) (percent_format_from Text v rest) = Inr c"
      by simp
    then obtain c' where "percent_format_from Text v rest = Inr c'" and "c = x # c'"
      by (cases "percent_format_from Text v rest") auto
    with True Cons show ?thesis by simp
  next
    case False
    with Cons assms have x: "x = CHR ''(''"
      and "percent_format_from (Key 0 []) v rest = Inr c"
      by (auto split: if_splits)
    from key_success [OF this(2)] obtain key rest' c'
      where "rest = key @ '')s'' @ rest'" and "key = ''user''"
        and "percent_format_from Text v rest' = Inr c'" and "c = v @ c'"
      by auto
    with x Cons show ?thesis by simp
  qed
qed

lemma percent_format_substitute:
  "percent_format_from Text v t = Inr c \<Longrightarrow> c = substitute v t"
proof (induction t arbitrary: c rule: length_induct)
  case (1 t)
  show ?case
  proof (cases t)
    case Nil
    with "1.prems" show ?thesis by simp
  next
    case (Cons x xs)
    show ?thesis
    proof (cases "x = CHR ''%''")
      case False
      with Cons "1.prems"
      have "map_sum id ((#) x) (percent_format_from Text v xs) = Inr c" by simp
      then obtain c' where c': "percent_format_from Text v xs = Inr c'" and c: "c = x # c'"
        by (cases "percent_format_from Text v xs") auto
      from "1.IH" Cons c' have "c' = substitute v xs" by simp
      with c False Cons show ?thesis by simp
    next
      case True
      with Cons "1.prems" have "percent_format_from Percent v xs = Inr c" by simp
      from percent_success [OF this] show ?thesis
      proof (elim disjE exE conjE)
        fix rest c'
        assume xs: "xs = CHR ''%'' # rest" and c': "percent_format_from Text v rest = Inr c'"
          and c: "c = CHR ''%'' # c'"
        from "1.IH" Cons xs c' have "c' = substitute v rest" by simp
        with c True Cons xs show ?thesis by simp
      next
        fix rest c'
        assume xs: "xs = ''(user)s'' @ rest" and c': "percent_format_from Text v rest = Inr c'"
          and c: "c = v @ c'"
        from "1.IH" Cons xs c' have "c' = substitute v rest" by simp
        with c True Cons xs show ?thesis by simp
      qed
    qed
  qed
qed

lemma hook_popen_kwargs_fields:
  "stdin (hook_popen_kwargs w) = DEVNULL"
  "stdout (hook_popen_kwargs w) = (if debug_enabled w then PIPE else DEVNULL)"
  "stderr (hook_popen_kwargs w) = (if debug_enabled w then PIPE else DEVNULL)"
  "shell (hook_popen_kwargs w) = True"
  "cwd (hook_popen_kwargs w) = filesystem_folder w"
  by (simp_all add: hook_popen_kwargs_def Let_def)

lemma run_hook_popen_arguments:
  assumes "hook_command (hook w) user = Inr command"
  shows "popen_arguments (fst (run_hook w user)) = [hook_popen_kwargs w]"
proof (cases "interrupt w")
  case None
  with assms show ?thesis
    by (simp add: run_hook_returned popen_arguments_append kill_remaining_quiet
        log_captured_quiet)
next
  case (Some e)
  with assms show ?thesis
    by (simp add: run_hook_interrupted popen_arguments_append kill_remaining_quiet)
qed

lemma acquire_lock_popen_arguments:
  assumes "body w = None" and "hook w \<noteq> []" and "hook_command (hook w) user = Inr command"
  shows "popen_arguments (fst (acquire_lock w ''w'' user)) = [hook_popen_kwargs w]"
  using assms by (simp add: acquire_lock_with_hook popen_arguments_append run_hook_popen_arguments)

lemma example_quoting:
  "shlex_quote ''alice'' = ''alice''"
  "shlex_quote ''Anonymous'' = ''Anonymous''"
  "shlex_quote ''a; rm -rf ~'' = [CHR 0x27] @ ''a; rm -rf ~'' @ [CHR 0x27]"
  "shlex_quote (''o'' @ [CHR 0x27] @ ''brien'') =
     [CHR 0x27] @ ''o'' @ [CHR 0x27, CHR 0x22, CHR 0x27, CHR 0x22, CHR 0x27] @ ''brien'' @
     [CHR 0x27]"
  by (simp_all add: shlex_quote_def safe_chars_def)

text \<open>
  Claim C6. The command line given to \<^verbatim>\<open>Popen\<close> is the configured template
  with each \<^verbatim>\<open>%(user)s\<close> replaced by the shell-escaped user, and by
  \<^verbatim>\<open>Anonymous\<close> when no user is given (each \<^verbatim>\<open>%%\<close> of the template gives
  \<^verbatim>\<open>%\<close>). Shell-escaped: whatever the user \<open>u\<close> is, the shell reads the text
  \<^verbatim>\<open>shlex.quote(u)\<close> as the one word \<open>u\<close>; a user made of safe characters is
  substituted as it is. The subprocess is run through a shell
  (\<^verbatim>\<open>shell=True\<close>) in the storage folder (\<^verbatim>\<open>cwd=folder\<close>). The template
  \<^verbatim>\<open>echo %(user)s > out.txt\<close> with user \<^verbatim>\<open>alice\<close> gives
  \<^verbatim>\<open>echo alice > out.txt\<close>.
\<close>

theorem hook_command_line:
  assumes "body w = None" and "hook w \<noteq> []" and "hook_command (hook w) user = Inr command"
  shows "popen_commands (fst (acquire_lock w ''w'' user)) = [command] \<and>
         command =
           substitute
             (shlex_quote
                (case user of
                   None \<Rightarrow> ''Anonymous''
                 | Some u \<Rightarrow> if u = [] then ''Anonymous'' else u))
             (hook w) \<and>
         (user = None \<longrightarrow> command = substitute ''Anonymous'' (hook w)) \<and>
         sh_word Bare (shlex_quote u) = Some u \<and>
         (u \<noteq> [] \<and> list_all (\<lambda>c. c \<in> set safe_chars) u \<longrightarrow> shlex_quote u = u) \<and>
         map shell (popen_arguments (fst (acquire_lock w ''w'' user))) = [True] \<and>
         map cwd (popen_arguments (fst (acquire_lock w ''w'' user))) = [filesystem_folder w] \<and>
         hook_command ''echo %(user)s > out.txt'' (Some ''alice'') = Inr ''echo alice > out.txt''"
proof -
  have "percent_format_from Text (shlex_quote (user_or_anonymous user)) (hook w) = Inr command"
    using assms(3) by (simp add: hook_command_def percent_format_def)
  then have "command = substitute (shlex_quote (user_or_anonymous user)) (hook w)"
    by (rule percent_format_substitute)
  then have c: "command =
           substitute
             (shlex_quote
                (case user of
                   None \<Rightarrow> ''Anonymous''
                 | Some u \<Rightarrow> if u = [] then ''Anonymous'' else u))
             (hook w)"
    by (simp add: user_or_anonymous_def split: option.splits)
  then have "user = None \<longrightarrow> command = substitute ''Anonymous'' (hook w)"
    by (simp add: example_quoting)
  moreover have "popen_commands (fst (acquire_lock w ''w'' user)) = [command]"
    using assms
    by (simp add: acquire_lock_with_hook popen_commands_append run_hook_popen_commands)
  moreover have "popen_arguments (fst (acquire_lock w ''w'' user)) = [hook_popen_kwargs w]"
    using assms by (rule acquire_lock_popen_arguments)
  moreover have "shell (hook_popen_kwargs w) = True"
    and "cwd (hook_popen_kwargs w) = filesystem_folder w"
    by (simp_all add: hook_popen_kwargs_fields)
  moreover have "u \<noteq> [] \<and> list_all (\<lambda>c. c \<in> set safe_chars) u \<longrightarrow> shlex_quote u = u"
    by (simp add: shlex_quote_def)
  ultimately show ?thesis
    using c by (simp add: example_command sh_word_shlex_quote)
qed

theorem hook_command_line_witness:
  "body example_world = None \<and> hook example_world \<noteq> [] \<and>
   hook_command (hook example_world) (Some ''alice'') = Inr ''echo alice > out.txt'' \<and>
   popen_commands (fst (acquire_lock example_world ''w'' (Some ''alice''))) =
     [''echo alice > out.txt''] \<and>
   ''alice'' \<noteq> [] \<and> list_all (\<lambda>c. c \<in> set safe_chars) ''alice'' \<and>
   shlex_quote ''alice'' = ''alice'' \<and>
   map shell (popen_arguments (fst (acquire_lock example_world ''w'' (Some ''alice'')))) = [True] \<and>
   map cwd (popen_arguments (fst (acquire_lock example_world ''w'' (Some ''alice'')))) =
     [''/srv/radicale''] \<and>
   hook_command (hook example_world) None = Inr ''echo Anonymous > out.txt'' \<and>
   popen_commands (fst (acquire_lock example_world ''w'' None)) =
     [''echo Anonymous > out.txt''] \<and>
   ''echo Anonymous > out.txt'' = substitute ''Anonymous'' (hook example_world) \<and>
   hook_command (hook example_world) (Some ''a; rm -rf ~'') =
     Inr (''echo '' @ [CHR 0x27] @ ''a; rm -rf ~'' @ [CHR 0x27] @ '' > out.txt'') \<and>
   popen_commands (fst (acquire_lock example_world ''w'' (Some ''a; rm -rf ~''))) =
     [''echo '' @ [CHR 0x27] @ ''a; rm -rf ~'' @ [CHR 0x27] @ '' > out.txt''] \<and>
   sh_word Bare ([CHR 0x27] @ ''a; rm -rf ~'' @ [CHR 0x27]) = Some ''a; rm -rf ~'' \<and>
   sh_word Bare ''a; rm -rf ~'' = None \<and>
   hook (example_world\<lparr>hook := ''echo 100%% %(user)s''\<rparr>) \<noteq> [] \<and>
   hook_command (hook (example_world\<lparr>hook := ''echo 100%% %(user)s''\<rparr>))
     (Some (''o'' @ [CHR 0x27] @ ''brien'')) =
     Inr (''echo 100% '' @ [CHR 0x27] @ ''o'' @ [CHR 0x27, CHR 0x22, CHR 0x27, CHR 0x22, CHR 0x27] @
          ''brien'' @ [CHR 0x27]) \<and>
   popen_commands
     (fst (acquire_lock (example_world\<lparr>hook := ''echo 100%% %(user)s''\<rparr>) ''w''
        (Some (''o'' @ [CHR 0x27] @ ''brien'')))) =
     [''echo 100% '' @ [CHR 0x27] @ ''o'' @ [CHR 0x27, CHR 0x22, CHR 0x27, CHR 0x22, CHR 0x27] @
      ''brien'' @ [CHR 0x27]]"
proof -
  let ?w = "example_world\<lparr>hook := ''echo 100%% %(user)s''\<rparr>"
  let ?o = "''o'' @ [CHR 0x27] @ ''brien''"
  have b: "body example_world = None" and h: "hook example_world \<noteq> []"
    and alice: "hook_command (hook example_world) (Some ''alice'') = Inr ''echo alice > out.txt''"
    by (rule example_world_facts)+
  have t: "hook example_world = ''echo %(user)s > out.txt''"
    and f: "filesystem_folder example_world = ''/srv/radicale''"
    by (simp_all add: example_world_def)
  have anon: "hook_command (hook example_world) None = Inr ''echo Anonymous > out.txt''"
    by (simp add: t hook_command_def user_or_anonymous_def example_quoting percent_format_def)
  have rm: "hook_command (hook example_world) (Some ''a; rm -rf ~'') =
      Inr (''echo '' @ [CHR 0x27] @ ''a; rm -rf ~'' @ [CHR 0x27] @ '' > out.txt'')"
    by (simp add: t hook_command_def user_or_anonymous_def example_quoting percent_format_def)
  have b': "body ?w = None" and h': "hook ?w \<noteq> []"
    using b by simp_all
  have ob: "hook_command (hook ?w) (Some ?o) =
      Inr (''echo 100% '' @ [CHR 0x27] @ ''o'' @ [CHR 0x27, CHR 0x22, CHR 0x27, CHR 0x22, CHR 0x27] @
           ''brien'' @ [CHR 0x27])"
    using example_quoting(4)
    by (simp add: hook_command_def user_or_anonymous_def percent_format_def)
  have nonempty: "''alice'' \<noteq> []"
    by simp
  have safe: "list_all (\<lambda>c. c \<in> set safe_chars) ''alice''"
    by (simp add: safe_chars_def)
  have bare: "sh_word Bare ''a; rm -rf ~'' = None"
    by (simp add: safe_chars_def)
  note with_alice = hook_command_line [OF b h alice, of "''alice''"]
  note with_none = hook_command_line [OF b h anon, of "''alice''"]
  note with_rm = hook_command_line [OF b h rm, of "''a; rm -rf ~''"]
  note with_quote = hook_command_line [OF b' h' ob, of ?o]
  have a1: "popen_commands (fst (acquire_lock example_world ''w'' (Some ''alice''))) =
      [''echo alice > out.txt'']"
    using with_alice by blast
  have a2: "shlex_quote ''alice'' = ''alice''"
    using with_alice nonempty safe by blast
  have a3: "map shell (popen_arguments (fst (acquire_lock example_world ''w'' (Some ''alice'')))) =
      [True]"
    using with_alice by blast
  have "map cwd (popen_arguments (fst (acquire_lock example_world ''w'' (Some ''alice'')))) =
      [filesystem_folder example_world]"
    using with_alice by blast
  then have a4: "map cwd (popen_arguments (fst (acquire_lock example_world ''w'' (Some ''alice'')))) =
      [''/srv/radicale'']"
    by (simp only: f)
  have n1: "popen_commands (fst (acquire_lock example_world ''w'' None)) =
      [''echo Anonymous > out.txt'']"
    using with_none by blast
  have n2: "''echo Anonymous > out.txt'' = substitute ''Anonymous'' (hook example_world)"
    using with_none by blast
  have r1: "popen_commands (fst (acquire_lock example_world ''w'' (Some ''a; rm -rf ~''))) =
      [''echo '' @ [CHR 0x27] @ ''a; rm -rf ~'' @ [CHR 0x27] @ '' > out.txt'']"
    using with_rm by blast
  have "sh_word Bare (shlex_quote ''a; rm -rf ~'') = Some ''a; rm -rf ~''"
    using with_rm by blast
  then have r2: "sh_word Bare ([CHR 0x27] @ ''a; rm -rf ~'' @ [CHR 0x27]) = Some ''a; rm -rf ~''"
    by (simp only: example_quoting(3))
  have q1: "popen_commands (fst (acquire_lock ?w ''w'' (Some ?o))) =
      [''echo 100% '' @ [CHR 0x27] @ ''o'' @ [CHR 0x27, CHR 0x22, CHR 0x27, CHR 0x22, CHR 0x27] @
       ''brien'' @ [CHR 0x27]]"
    using with_quote by blast
  show ?thesis
    using b h alice a1 nonempty safe a2 a3 a4 anon n1 n2 rm r1 r2 bare h' ob q1
    by blast
qed

text \<open>
  Claim C10. The empty string as user is treated as no user: the template is
  formatted with \<^verbatim>\<open>Anonymous\<close>, and the whole transaction is the one that the
  absent user gives. The quoted empty string \<^verbatim>\<open>''\<close> is not what is
  substituted, as the example template shows.
\<close>

theorem empty_user_is_anonymous:
  "hook_command template (Some []) = percent_format template ''Anonymous'' \<and>
   hook_command template (Some []) = hook_command template None \<and>
   acquire_lock w mode (Some []) = acquire_lock w mode None \<and>
   hook_command ''echo %(user)s > out.txt'' (Some []) = Inr ''echo Anonymous > out.txt'' \<and>
   percent_format ''echo %(user)s > out.txt'' (shlex_quote []) =
     Inr (''echo '' @ [CHR 0x27, CHR 0x27] @ '' > out.txt'')"
proof -
  have anonymous: "shlex_quote ''Anonymous'' = ''Anonymous''"
    by (simp add: shlex_quote_def safe_chars_def)
  have same: "hook_command t (Some []) = hook_command t None" for t
    by (simp add: hook_command_def user_or_anonymous_def)
  have hook_same: "run_hook w (Some []) = run_hook w None"
    by (simp add: run_hook_def same)
  have "acquire_lock w mode (Some []) = acquire_lock w mode None"
    unfolding acquire_lock_def hook_same by (rule refl)
  moreover have "hook_command template (Some []) = percent_format template ''Anonymous''"
    by (simp add: hook_command_def user_or_anonymous_def anonymous)
  moreover have "hook_command ''echo %(user)s > out.txt'' (Some []) =
      Inr ''echo Anonymous > out.txt''"
    by (simp add: hook_command_def user_or_anonymous_def anonymous percent_format_def)
  moreover have "percent_format ''echo %(user)s > out.txt'' (shlex_quote []) =
      Inr (''echo '' @ [CHR 0x27, CHR 0x27] @ '' > out.txt'')"
    by (simp add: percent_format_def shlex_quote_def)
  ultimately show ?thesis
    by (simp add: same)
qed

subsection \<open>The streams of the hook\<close>

lemma debug_messages_log_captured:
  "debug_messages (log_captured name data) =
     (case data of
        None \<Rightarrow> []
      | Some text \<Rightarrow>
          if text \<noteq> [] then [''Captured '' @ name @ '' hook:'' @ [CHR 0x0A] @ text] else [])"
  by (simp add: log_captured_def split: option.splits)

lemma captured_by_debug:
  "captured (if debug then PIPE else DEVNULL) written = (if debug then Some written else None)"
  by (simp add: captured_def)

lemma acquire_lock_debug_messages:
  assumes "body w = None" and "hook w \<noteq> []" and "hook_command (hook w) user = Inr command"
    and "interrupt w = None"
  shows "debug_messages (fst (acquire_lock w ''w'' user)) =
           ''Running hook'' #
           (if debug_enabled w \<and> hook_stdout w \<noteq> []
            then [''Captured stdout hook:'' @ [CHR 0x0A] @ hook_stdout w] else []) @
           (if debug_enabled w \<and> hook_stderr w \<noteq> []
            then [''Captured stderr hook:'' @ [CHR 0x0A] @ hook_stderr w] else [])"
  using assms
  by (simp add: acquire_lock_with_hook run_hook_returned debug_messages_append
      kill_remaining_quiet debug_messages_log_captured hook_popen_kwargs_fields captured_by_debug)

text \<open>
  Claim C9. The subprocess is started with its standard input on the null
  device in every case, and with its standard output and standard error on
  pipes when debug logging is enabled and on the null device otherwise. After
  an uninterrupted wait the debug messages of the transaction are
  \<^verbatim>\<open>Running hook\<close> followed, when debug logging is enabled, by one message for
  the captured standard output if that is not empty and one for the captured
  standard error if that is not empty. Without debug logging
  \<^verbatim>\<open>p.communicate()\<close> returns no text for either stream and no such message is
  logged.
\<close>

theorem hook_streams_and_captured_output:
  assumes "body w = None" and "hook w \<noteq> []" and "hook_command (hook w) user = Inr command"
  shows "map stdin (popen_arguments (fst (acquire_lock w ''w'' user))) = [DEVNULL] \<and>
         map stdout (popen_arguments (fst (acquire_lock w ''w'' user))) =
           [if debug_enabled w then PIPE else DEVNULL] \<and>
         map stderr (popen_arguments (fst (acquire_lock w ''w'' user))) =
           [if debug_enabled w then PIPE else DEVNULL] \<and>
         (interrupt w = None \<longrightarrow>
            debug_messages (fst (acquire_lock w ''w'' user)) =
              ''Running hook'' #
              (if debug_enabled w \<and> hook_stdout w \<noteq> []
               then [''Captured stdout hook:'' @ [CHR 0x0A] @ hook_stdout w] else []) @
              (if debug_enabled w \<and> hook_stderr w \<noteq> []
               then [''Captured stderr hook:'' @ [CHR 0x0A] @ hook_stderr w] else [])) \<and>
         (interrupt w = None \<and> \<not> debug_enabled w \<longrightarrow>
            snd (wait_for_hook w (hook_popen_kwargs w)) = Inr (None, None))"
proof -
  have "popen_arguments (fst (acquire_lock w ''w'' user)) = [hook_popen_kwargs w]"
    using assms by (rule acquire_lock_popen_arguments)
  then have "map stdin (popen_arguments (fst (acquire_lock w ''w'' user))) = [DEVNULL]"
    and "map stdout (popen_arguments (fst (acquire_lock w ''w'' user))) =
           [if debug_enabled w then PIPE else DEVNULL]"
    and "map stderr (popen_arguments (fst (acquire_lock w ''w'' user))) =
           [if debug_enabled w then PIPE else DEVNULL]"
    by (simp_all add: hook_popen_kwargs_fields)
  moreover have "interrupt w = None \<longrightarrow>
      debug_messages (fst (acquire_lock w ''w'' user)) =
        ''Running hook'' #
        (if debug_enabled w \<and> hook_stdout w \<noteq> []
         then [''Captured stdout hook:'' @ [CHR 0x0A] @ hook_stdout w] else []) @
        (if debug_enabled w \<and> hook_stderr w \<noteq> []
         then [''Captured stderr hook:'' @ [CHR 0x0A] @ hook_stderr w] else [])"
    using acquire_lock_debug_messages [OF assms] by blast
  moreover have "interrupt w = None \<and> \<not> debug_enabled w \<longrightarrow>
      snd (wait_for_hook w (hook_popen_kwargs w)) = Inr (None, None)"
    by (simp add: wait_for_hook_def hook_popen_kwargs_fields captured_def)
  ultimately show ?thesis by simp
qed

theorem hook_streams_and_captured_output_witness:
  "body example_world = None \<and> hook example_world \<noteq> [] \<and>
   hook_command (hook example_world) (Some ''alice'') = Inr ''echo alice > out.txt'' \<and>
   interrupt example_world = None \<and> debug_enabled example_world \<and>
   map stdin (popen_arguments (fst (acquire_lock example_world ''w'' (Some ''alice'')))) =
     [DEVNULL] \<and>
   map stdout (popen_arguments (fst (acquire_lock example_world ''w'' (Some ''alice'')))) =
     [PIPE] \<and>
   debug_messages (fst (acquire_lock example_world ''w'' (Some ''alice''))) =
     [''Running hook'', ''Captured stdout hook:'' @ [CHR 0x0A] @ ''done''] \<and>
   body (example_world\<lparr>debug_enabled := False\<rparr>) = None \<and>
   hook (example_world\<lparr>debug_enabled := False\<rparr>) \<noteq> [] \<and>
   hook_command (hook (example_world\<lparr>debug_enabled := False\<rparr>)) (Some ''alice'') =
     Inr ''echo alice > out.txt'' \<and>
   interrupt (example_world\<lparr>debug_enabled := False\<rparr>) = None \<and>
   \<not> debug_enabled (example_world\<lparr>debug_enabled := False\<rparr>) \<and>
   map stdout
     (popen_arguments
        (fst (acquire_lock (example_world\<lparr>debug_enabled := False\<rparr>) ''w'' (Some ''alice'')))) =
     [DEVNULL] \<and>
   debug_messages
     (fst (acquire_lock (example_world\<lparr>debug_enabled := False\<rparr>) ''w'' (Some ''alice''))) =
     [''Running hook''] \<and>
   snd (wait_for_hook (example_world\<lparr>debug_enabled := False\<rparr>)
          (hook_popen_kwargs (example_world\<lparr>debug_enabled := False\<rparr>))) = Inr (None, None)"
proof -
  let ?w = "example_world\<lparr>debug_enabled := False\<rparr>"
  have d: "debug_enabled example_world" and o: "hook_stdout example_world = ''done''"
    and r: "hook_stderr example_world = []"
    by (simp_all add: example_world_def)
  have b: "body ?w = None" and h: "hook ?w \<noteq> []"
    and c: "hook_command (hook ?w) (Some ''alice'') = Inr ''echo alice > out.txt''"
    and i: "interrupt ?w = None"
    using example_world_facts by simp_all
  show ?thesis
    using hook_streams_and_captured_output [OF example_world_facts(1) example_world_facts(2)
        example_world_facts(3)]
      hook_streams_and_captured_output [OF b h c] example_world_facts b h c i d o r
    by simp
qed

end
